theory Spec2Isabelle
  imports Main "HOL-Library.Word"
begin

section \<open>The image downloader \<^verbatim>\<open>src/extraction/download_images.py\<close>\<close>

text \<open>
  The script has two functions, \<^verbatim>\<open>download_batch\<close> and \<^verbatim>\<open>main\<close>. Both are embedded
  below as HOL functions. What the script does to the outside (HTTP requests, file
  writes, lines printed) is returned as part of the result, and what the outside answers
  (a response body, or an exception at one of the calls of the \<^verbatim>\<open>try\<close> block) is an
  argument, so every theorem holds for every behaviour of the network and the file system.
\<close>

subsection \<open>Python's number formatting\<close>

type_synonym bytes = "8 word list"

text \<open>
  The decimal digits of a natural number, most significant first: \<^verbatim>\<open>str(n)\<close>, and the
  format \<^verbatim>\<open>{n}\<close> of an f-string, for \<open>n\<close> not negative.
\<close>

definition digit_char :: "nat \<Rightarrow> char" where
  "digit_char d = ''0123456789'' ! d"

fun digits :: "nat \<Rightarrow> string" where
  "digits n = (if n < 10 then [digit_char n] else digits (n div 10) @ [digit_char (n mod 10)])"

declare digits.simps [simp del]

text \<open>
  The format \<^verbatim>\<open>{n:04d}\<close>: the sign of a negative number, then the decimal digits of the
  absolute value, filled with zeros between sign and digits up to a total width of 4. The
  width is a minimum: the subtraction below is on \<open>nat\<close> and stops at 0, so a number
  that is already wider gets no zero and loses no digit.
\<close>

definition fmt_04d :: "int \<Rightarrow> string" where
  "fmt_04d n =
     (let sign = (if n < 0 then ''-'' else []);
          ds = digits (nat \<bar>n\<bar>)
      in sign @ replicate (4 - length sign - length ds) (CHR ''0'') @ ds)"

text \<open>
  The format \<^verbatim>\<open>{n:,}\<close> of a non-negative integer: a comma before every group of three
  digits, counted from the right. \<open>commas\<close> works on the reversed digits.
\<close>

fun commas :: "string \<Rightarrow> string" where
  "commas (a # b # c # d # ds) = a # b # c # CHR '','' # commas (d # ds)"
| "commas ds = ds"

definition fmt_comma :: "nat \<Rightarrow> string" where
  "fmt_comma n = rev (commas (rev (digits n)))"

subsection \<open>The outside world\<close>

text \<open>
  \<^verbatim>\<open>urllib.request.Request(url, headers={'User-Agent': 'Mozilla/5.0'})\<close>: the request
  object. No body is given (\<open>req_data\<close> is \<open>None\<close>), which is what makes the request a GET.
\<close>

record request =
  full_url :: string
  headers :: "(string \<times> string) list"
  req_data :: "bytes option"

definition Request :: "string \<Rightarrow> (string \<times> string) list \<Rightarrow> request" where
  "Request url hs = \<lparr>full_url = url, headers = hs, req_data = None\<rparr>"


text \<open>
  The calls the loop body makes to the outside, as they are made: \<^verbatim>\<open>urlopen(req,
  timeout=t)\<close> and \<^verbatim>\<open>filepath.write_bytes(data)\<close>.
\<close>

datatype call =
    Urlopen request nat
  | WriteBytes string bytes

text \<open>
  What happens in one run of the \<^verbatim>\<open>try\<close> block (lines 25 to 31). Each of its four
  calls to the outside can raise; the string is \<^verbatim>\<open>str(e)\<close> of the exception.
  \<^item> \<open>RequestRaises\<close>: the constructor \<^verbatim>\<open>Request\<close> raises (\<^verbatim>\<open>ValueError\<close> for a
    URL without a scheme), so \<^verbatim>\<open>urlopen\<close> is never called;
  \<^item> \<open>UrlopenRaises\<close>: \<^verbatim>\<open>urlopen\<close> raises (network error, HTTP error status, timeout);
  \<^item> \<open>ReadRaises\<close>: \<^verbatim>\<open>response.read()\<close> raises;
  \<^item> \<open>WriteRaises\<close>: the body was read, and \<^verbatim>\<open>write_bytes\<close> raises (for example
    because the output directory is missing);
  \<^item> \<open>Succeeds\<close>: the body was read and written.
  \<^verbatim>\<open>print\<close> and leaving the \<^verbatim>\<open>with\<close> block are taken not to raise, and only exceptions
  derived from \<^verbatim>\<open>Exception\<close> are considered, which are the ones line 32 catches.
\<close>

datatype attempt =
    RequestRaises string
  | UrlopenRaises string
  | ReadRaises string
  | WriteRaises bytes string
  | Succeeds bytes

text \<open>The exception message of an attempt, if it raises.\<close>

fun raised :: "attempt \<Rightarrow> string option" where
  "raised (RequestRaises e) = Some e"
| "raised (UrlopenRaises e) = Some e"
| "raised (ReadRaises e) = Some e"
| "raised (WriteRaises d e) = Some e"
| "raised (Succeeds d) = None"

text \<open>The response body of an attempt, if \<^verbatim>\<open>response.read()\<close> returned one.\<close>

fun body :: "attempt \<Rightarrow> bytes option" where
  "body (WriteRaises d e) = Some d"
| "body (Succeeds d) = Some d"
| "body _ = None"

subsection \<open>\<^verbatim>\<open>download_batch\<close>\<close>

text \<open>
  The dictionary \<^verbatim>\<open>results\<close> has three fixed keys and is a record here. The state of the
  loop is that record, the lines printed so far and the calls made so far.
\<close>

record results =
  success :: nat
  failed :: "(string \<times> string) list"
  sizes :: "(string \<times> nat) list"

record state =
  res :: results
  stdout :: "string list"
  calls :: "call list"

text \<open>The marks of the progress lines, U+2713 and U+2717, in UTF-8.\<close>

definition check_mark :: string where
  "check_mark = [CHR 0xE2, CHR 0x9C, CHR 0x93]"

definition ballot_x :: string where
  "ballot_x = [CHR 0xE2, CHR 0x9C, CHR 0x97]"

definition photo_id_of :: "int \<Rightarrow> nat \<Rightarrow> string" where
  "photo_id_of start_num i = fmt_04d (start_num + int i)"

definition filepath_of :: "string \<Rightarrow> string \<Rightarrow> string" where
  "filepath_of images_dir photo_id = images_dir @ ''/'' @ photo_id @ ''.jpg''"

text \<open>Lines 33 and 34, the \<^verbatim>\<open>except\<close> branch.\<close>

definition on_exception :: "string \<Rightarrow> string \<Rightarrow> state \<Rightarrow> state" where
  "on_exception photo_id e s =
     s\<lparr>res := (res s)\<lparr>failed := failed (res s) @ [(photo_id, e)]\<rparr>,
       stdout := stdout s @ [''  '' @ ballot_x @ '' '' @ photo_id @ '': '' @ e]\<rparr>"

text \<open>Lines 29 to 31, reached when nothing before them raised.\<close>

definition on_success :: "string \<Rightarrow> bytes \<Rightarrow> state \<Rightarrow> state" where
  "on_success photo_id data s =
     s\<lparr>res := (res s)\<lparr>success := success (res s) + 1,
                       sizes := sizes (res s) @ [(photo_id, length data)]\<rparr>,
       stdout := stdout s @
         [''  '' @ check_mark @ '' '' @ photo_id @ '': '' @ fmt_comma (length data) @ '' bytes'']\<rparr>"

text \<open>
  One iteration of the loop, lines 21 to 34, for the pair \<open>(i, url)\<close> of
  \<^verbatim>\<open>enumerate(urls)\<close>. \<open>env i\<close> says how the \<^verbatim>\<open>try\<close> block of iteration \<open>i\<close> goes.
\<close>

definition loop_body :: "string \<Rightarrow> (nat \<Rightarrow> attempt) \<Rightarrow> int \<Rightarrow> state \<Rightarrow> nat \<times> string \<Rightarrow> state" where
  "loop_body images_dir env start_num s p =
     (let i = fst p; url = snd p;
          photo_id = photo_id_of start_num i;
          filepath = filepath_of images_dir photo_id;
          req = Request url [(''User-Agent'', ''Mozilla/5.0'')]
      in case env i of
           RequestRaises e \<Rightarrow> on_exception photo_id e s
         | UrlopenRaises e \<Rightarrow>
             on_exception photo_id e (s\<lparr>calls := calls s @ [Urlopen req 30]\<rparr>)
         | ReadRaises e \<Rightarrow>
             on_exception photo_id e (s\<lparr>calls := calls s @ [Urlopen req 30]\<rparr>)
         | WriteRaises data e \<Rightarrow>
             on_exception photo_id e
               (s\<lparr>calls := calls s @ [Urlopen req 30, WriteBytes filepath data]\<rparr>)
         | Succeeds data \<Rightarrow>
             on_success photo_id data
               (s\<lparr>calls := calls s @ [Urlopen req 30, WriteBytes filepath data]\<rparr>))"

definition initial :: state where
  "initial = \<lparr>res = \<lparr>success = 0, failed = [], sizes = []\<rparr>, stdout = [], calls = []\<rparr>"

text \<open>
  \<^verbatim>\<open>download_batch(start_num, urls)\<close>. \<open>images_dir\<close> is the module constant
  \<^verbatim>\<open>IMAGES_DIR\<close>, which depends on where the script is stored. The function returns the
  whole state; \<open>res\<close> of it is the dictionary the Python function returns.
\<close>

definition download_batch :: "string \<Rightarrow> (nat \<Rightarrow> attempt) \<Rightarrow> int \<Rightarrow> string list \<Rightarrow> state" where
  "download_batch images_dir env start_num urls =
     foldl (loop_body images_dir env start_num) initial (enumerate 0 urls)"

subsection \<open>\<^verbatim>\<open>main\<close>\<close>

text \<open>
  What leaves \<^verbatim>\<open>main\<close> instead of a normal return: \<^verbatim>\<open>sys.exit(n)\<close> raises
  \<^verbatim>\<open>SystemExit\<close>, and \<^verbatim>\<open>int(sys.argv[1])\<close> raises \<^verbatim>\<open>ValueError\<close> when the
  argument is not an integer literal; nothing in the script catches it.
\<close>

datatype uncaught = SystemExit int | ValueError

record run =
  leaves :: "uncaught option"
  printed :: "string list"
  made :: "call list"

definition usage :: string where
  "usage = ''Usage: python download_images.py <start_num> <url1> <url2> ...''"

text \<open>
  \<^verbatim>\<open>main()\<close> on the argument vector \<^verbatim>\<open>sys.argv\<close>. \<open>py_int\<close> is Python's \<^verbatim>\<open>int\<close> on
  strings, \<open>None\<close> where it raises. The lines printed are those of \<^verbatim>\<open>main\<close> with the
  lines of \<^verbatim>\<open>download_batch\<close> in between, in the order of the calls of \<^verbatim>\<open>print\<close>.
\<close>

definition main :: "string \<Rightarrow> (string \<Rightarrow> int option) \<Rightarrow> (nat \<Rightarrow> attempt) \<Rightarrow> string list \<Rightarrow> run" where
  "main images_dir py_int env argv =
     (if length argv < 3 then
        \<lparr>leaves = Some (SystemExit 1), printed = [usage], made = []\<rparr>
      else
        case py_int (argv ! 1) of
          None \<Rightarrow> \<lparr>leaves = Some ValueError, printed = [], made = []\<rparr>
        | Some start_num \<Rightarrow>
            (let urls = drop 2 argv;
                 line1 = ''Downloading '' @ digits (length urls) @
                         '' images starting from '' @ fmt_04d start_num @ ''...'';
                 b = download_batch images_dir env start_num urls;
                 line2 = [CHR 0x0A] @ ''Results: '' @ digits (success (res b)) @ ''/'' @
                         digits (length urls) @ '' successful'';
                 report = (if failed (res b) \<noteq> [] then
                             ''Failed:'' #
                             map (\<lambda>(photo_id, err). ''  '' @ photo_id @ '': '' @ err) (failed (res b))
                           else [])
             in \<lparr>leaves = None,
                 printed = [line1] @ stdout b @ [line2] @ report,
                 made = calls b\<rparr>))"

text \<open>
  The exit status of the process that runs \<^verbatim>\<open>main()\<close> as its last statement: 0 when
  \<^verbatim>\<open>main\<close> returns, the argument of \<^verbatim>\<open>sys.exit\<close>, and 1 after the traceback of an
  uncaught exception.
\<close>

definition exit_status :: "run \<Rightarrow> int" where
  "exit_status r =
     (case leaves r of None \<Rightarrow> 0 | Some (SystemExit n) \<Rightarrow> n | Some ValueError \<Rightarrow> 1)"

text \<open>
  \<^verbatim>\<open>int(s)\<close> on ASCII strings, to have a concrete \<open>py_int\<close> at hand: white space around
  the literal is dropped, a sign may come first, and single underscores may stand
  between digits.
\<close>

definition is_digit :: "char \<Rightarrow> bool" where
  "is_digit c = (c \<in> set ''0123456789'')"

definition digit_val :: "char \<Rightarrow> nat" where
  "digit_val c = of_char c - 48"

definition is_space :: "char \<Rightarrow> bool" where
  "is_space c = (c \<in> set [CHR '' '', CHR 0x09, CHR 0x0A, CHR 0x0B, CHR 0x0C, CHR 0x0D])"

definition strip :: "string \<Rightarrow> string" where
  "strip s = rev (dropWhile is_space (rev (dropWhile is_space s)))"

fun scan_digits :: "bool \<Rightarrow> nat \<Rightarrow> string \<Rightarrow> nat option" where
  "scan_digits after_digit acc [] = (if after_digit then Some acc else None)"
| "scan_digits after_digit acc (c # cs) =
     (if is_digit c then scan_digits True (10 * acc + digit_val c) cs
      else if c = CHR ''_'' \<and> after_digit then scan_digits False acc cs
      else None)"

definition ascii_int :: "string \<Rightarrow> int option" where
  "ascii_int s =
     (case strip s of
        [] \<Rightarrow> None
      | c # cs \<Rightarrow>
          if c = CHR ''-'' then map_option (\<lambda>n. - int n) (scan_digits False 0 cs)
          else if c = CHR ''+'' then map_option int (scan_digits False 0 cs)
          else map_option int (scan_digits False 0 (c # cs)))"

subsection \<open>Vocabulary of the statements\<close>

text \<open>
  What one iteration contributes to each part of the state, as a function of how its
  \<^verbatim>\<open>try\<close> block went. The lemmas of the next section show that \<open>loop_body\<close> and
  \<open>download_batch\<close> add exactly these.
\<close>

fun progress_line :: "string \<Rightarrow> attempt \<Rightarrow> string" where
  "progress_line photo_id (Succeeds d) =
     ''  '' @ check_mark @ '' '' @ photo_id @ '': '' @ fmt_comma (length d) @ '' bytes''"
| "progress_line photo_id (RequestRaises e) = ''  '' @ ballot_x @ '' '' @ photo_id @ '': '' @ e"
| "progress_line photo_id (UrlopenRaises e) = ''  '' @ ballot_x @ '' '' @ photo_id @ '': '' @ e"
| "progress_line photo_id (ReadRaises e) = ''  '' @ ballot_x @ '' '' @ photo_id @ '': '' @ e"
| "progress_line photo_id (WriteRaises d e) = ''  '' @ ballot_x @ '' '' @ photo_id @ '': '' @ e"

definition failed_entry :: "string \<Rightarrow> attempt \<Rightarrow> (string \<times> string) list" where
  "failed_entry photo_id a = (case raised a of Some e \<Rightarrow> [(photo_id, e)] | None \<Rightarrow> [])"

fun sizes_entry :: "string \<Rightarrow> attempt \<Rightarrow> (string \<times> nat) list" where
  "sizes_entry photo_id (Succeeds d) = [(photo_id, length d)]"
| "sizes_entry photo_id _ = []"

definition user_agent :: "(string \<times> string) list" where
  "user_agent = [(''User-Agent'', ''Mozilla/5.0'')]"

fun calls_made :: "string \<Rightarrow> string \<Rightarrow> attempt \<Rightarrow> call list" where
  "calls_made url filepath (RequestRaises e) = []"
| "calls_made url filepath (UrlopenRaises e) = [Urlopen (Request url user_agent) 30]"
| "calls_made url filepath (ReadRaises e) = [Urlopen (Request url user_agent) 30]"
| "calls_made url filepath (WriteRaises d e) =
     [Urlopen (Request url user_agent) 30, WriteBytes filepath d]"
| "calls_made url filepath (Succeeds d) =
     [Urlopen (Request url user_agent) 30, WriteBytes filepath d]"



text \<open>A string of exactly four decimal digits.\<close>

definition four_digits :: "string \<Rightarrow> bool" where
  "four_digits s = (length s = 4 \<and> list_all is_digit s)"

text \<open>
  Reading a photo ID back as a number: the value of the digits, negated after a minus
  sign. It is the left inverse of \<open>fmt_04d\<close>, see \<open>read_int_fmt_04d\<close>.
\<close>

definition digits_val :: "string \<Rightarrow> nat" where
  "digits_val s = foldl (\<lambda>a c. 10 * a + digit_val c) 0 s"

fun read_int :: "string \<Rightarrow> int" where
  "read_int [] = 0"
| "read_int (c # cs) =
     (if c = CHR ''-'' then - int (digits_val cs) else int (digits_val (c # cs)))"

text \<open>Concrete runs, used to instantiate the theorems.\<close>

definition two_urls :: "string list" where
  "two_urls = [''http://a/x.jpg'', ''http://b/y.jpg'']"

definition all_fine :: "nat \<Rightarrow> attempt" where
  "all_fine i = Succeeds [0xFF, 0xD8, 0xFF]"

definition first_times_out :: "nat \<Rightarrow> attempt" where
  "first_times_out i = (if i = 0 then UrlopenRaises ''timed out'' else Succeeds [0xFF, 0xD8])"

definition no_directory :: "nat \<Rightarrow> attempt" where
  "no_directory i = WriteRaises [0xFF, 0xD8] ''No such file or directory''"


section \<open>Properties\<close>

subsection \<open>The number formats\<close>

lemma lt10_cases: "d < 10 \<Longrightarrow> d \<in> {0, 1, 2, 3, 4, 5, 6, 7, 8, 9::nat}"
  by auto

lemma digit_char_props:
  assumes "d < 10"
  shows "digit_val (digit_char d) = d" and "is_digit (digit_char d)"
  using lt10_cases [OF assms] by (auto simp: digit_val_def digit_char_def is_digit_def)

lemma digits_nonempty: "digits n \<noteq> []"
  by (subst digits.simps) simp

lemma length_digits_step: "10 \<le> n \<Longrightarrow> length (digits n) = Suc (length (digits (n div 10)))"
  by (subst digits.simps) simp

lemma length_digits_small: "n < 10 \<Longrightarrow> length (digits n) = 1"
  by (subst digits.simps) simp

lemma length_digits_pos: "0 < length (digits n)"
  using digits_nonempty by simp

lemma length_digits_ge5: "10000 \<le> n \<Longrightarrow> 5 \<le> length (digits n)"
proof -
  assume h: "10000 \<le> n"
  have "10 \<le> n" "10 \<le> n div 10" "10 \<le> n div 10 div 10" "10 \<le> n div 10 div 10 div 10"
    using h by auto
  then have "length (digits n) = 4 + length (digits (n div 10 div 10 div 10 div 10))"
    by (simp add: length_digits_step)
  then show ?thesis
    using length_digits_pos [of "n div 10 div 10 div 10 div 10"] by linarith
qed

lemma length_digits_le4: "n < 10000 \<Longrightarrow> length (digits n) \<le> 4"
proof -
  assume h: "n < 10000"
  have a: "\<And>m. length (digits m) \<le> Suc (length (digits (m div 10)))"
    by (subst digits.simps) simp
  have "n div 10 div 10 div 10 < 10" using h by auto
  then have "length (digits (n div 10 div 10 div 10)) = 1" by (rule length_digits_small)
  with a [of n] a [of "n div 10"] a [of "n div 10 div 10"] show ?thesis by linarith
qed

lemma digits_all_digit: "list_all is_digit (digits n)"
  by (induction n rule: digits.induct) (subst digits.simps, simp add: digit_char_props)

lemma digits_val_snoc: "digits_val (s @ [c]) = 10 * digits_val s + digit_val c"
  by (simp add: digits_val_def)

lemma digits_val_digits: "digits_val (digits n) = n"
proof (induction n rule: digits.induct)
  case (1 n)
  show ?case
  proof (cases "n < 10")
    case True
    then show ?thesis
      by (subst digits.simps) (simp add: digits_val_def digit_char_props)
  next
    case False
    with 1 show ?thesis
      by (subst digits.simps) (simp add: digits_val_snoc digit_char_props)
  qed
qed

lemma digits_val_zeros: "digits_val (replicate k (CHR ''0'') @ s) = digits_val s"
proof -
  have "foldl (\<lambda>a c. 10 * a + digit_val c) 0 (replicate k (CHR ''0'')) = 0"
    by (induction k) (simp_all add: digit_val_def)
  then show ?thesis by (simp add: digits_val_def)
qed

lemma minus_not_digit: "\<not> is_digit (CHR ''-'')"
  by (simp add: is_digit_def)

lemma zero_is_digit: "is_digit (CHR ''0'')"
  by (simp add: is_digit_def)

lemma list_all_zeros: "list_all is_digit (replicate k (CHR ''0''))"
  by (induction k) (simp_all add: zero_is_digit)

lemma fmt_04d_neg:
  "n < 0 \<Longrightarrow>
   fmt_04d n =
     CHR ''-'' # replicate (3 - length (digits (nat (- n)))) (CHR ''0'') @ digits (nat (- n))"
  by (simp add: fmt_04d_def Let_def)

lemma fmt_04d_nonneg:
  "0 \<le> n \<Longrightarrow>
   fmt_04d n = replicate (4 - length (digits (nat n))) (CHR ''0'') @ digits (nat n)"
  by (simp add: fmt_04d_def Let_def)

text \<open>No digit is lost and none is invented: the number can be read back from its photo ID.\<close>

lemma read_int_fmt_04d: "read_int (fmt_04d n) = n"
proof (cases "n < 0")
  case True
  then show ?thesis
    by (simp add: fmt_04d_neg digits_val_zeros digits_val_digits)
next
  case False
  let ?s = "replicate (4 - length (digits (nat n))) (CHR ''0'') @ digits (nat n)"
  have s: "fmt_04d n = ?s" using False by (simp add: fmt_04d_nonneg)
  have "list_all is_digit ?s" by (simp add: digits_all_digit list_all_zeros)
  moreover have "?s \<noteq> []" by (simp add: digits_nonempty)
  ultimately obtain c cs where cs: "?s = c # cs" "c \<noteq> CHR ''-''"
    using minus_not_digit by (cases ?s) auto
  have "read_int ?s = int (digits_val ?s)"
    unfolding cs(1) using cs(2) by simp
  then show ?thesis using False unfolding s by (simp add: digits_val_zeros digits_val_digits)
qed

lemma fmt_04d_inj: "fmt_04d m = fmt_04d n \<Longrightarrow> m = n"
  by (metis read_int_fmt_04d)

lemma photo_id_of_inj: "photo_id_of st i = photo_id_of st j \<longleftrightarrow> i = j"
  using fmt_04d_inj [of "st + int i" "st + int j"] by (auto simp: photo_id_of_def)

lemma filepath_of_inj: "filepath_of d p = filepath_of d q \<longleftrightarrow> p = q"
  by (simp add: filepath_of_def)

lemma length_fmt_04d_big: "9999 < n \<Longrightarrow> 4 < length (fmt_04d n)"
proof -
  assume h: "9999 < n"
  then have "5 \<le> length (digits (nat n))" by (intro length_digits_ge5) simp
  then show ?thesis using h by (simp add: fmt_04d_nonneg)
qed

lemma length_fmt_04d_ge4: "4 \<le> length (fmt_04d n)"
  by (cases "n < 0") (simp_all add: fmt_04d_neg fmt_04d_nonneg)

lemma hd_fmt_04d_neg: "n < 0 \<Longrightarrow> hd (fmt_04d n) = CHR ''-''"
  by (simp add: fmt_04d_neg)

lemma four_digits_fmt_04d: "four_digits (fmt_04d n) \<longleftrightarrow> 0 \<le> n \<and> n \<le> 9999"
proof (cases "n < 0")
  case True
  then show ?thesis by (simp add: fmt_04d_neg four_digits_def minus_not_digit)
next
  case False
  show ?thesis
  proof (cases "n \<le> 9999")
    case True
    have "length (digits (nat n)) \<le> 4" using True False by (intro length_digits_le4) simp
    then show ?thesis using True False
      by (simp add: four_digits_def fmt_04d_nonneg digits_all_digit list_all_zeros)
  next
    case F: False
    then show ?thesis using length_fmt_04d_big [of n] by (simp add: four_digits_def)
  qed
qed

subsection \<open>The loop, part by part\<close>

lemma loop_body_fields:
  "success (res (loop_body d env st s (i, url))) =
     success (res s) + (if raised (env i) = None then 1 else 0)"
  "failed (res (loop_body d env st s (i, url))) =
     failed (res s) @ failed_entry (photo_id_of st i) (env i)"
  "sizes (res (loop_body d env st s (i, url))) =
     sizes (res s) @ sizes_entry (photo_id_of st i) (env i)"
  "stdout (loop_body d env st s (i, url)) =
     stdout s @ [progress_line (photo_id_of st i) (env i)]"
  "calls (loop_body d env st s (i, url)) =
     calls s @ calls_made url (filepath_of d (photo_id_of st i)) (env i)"
  by (cases "env i";
      simp add: loop_body_def on_exception_def on_success_def Let_def
                failed_entry_def user_agent_def)+

lemma upt_step: "[k..<Suc (k + n)] = k # [Suc k..<Suc (k + n)]"
  by (simp add: upt_conv_Cons del: upt_Suc)


lemma failed_foldl:
  "failed (res (foldl (loop_body d env st) s (enumerate k urls))) =
     failed (res s) @
     concat (map (\<lambda>i. failed_entry (photo_id_of st i) (env i)) [k..<k + length urls])"
  by (induction urls arbitrary: k s) (simp_all add: upt_step loop_body_fields del: upt_Suc)

lemma sizes_foldl:
  "sizes (res (foldl (loop_body d env st) s (enumerate k urls))) =
     sizes (res s) @
     concat (map (\<lambda>i. sizes_entry (photo_id_of st i) (env i)) [k..<k + length urls])"
  by (induction urls arbitrary: k s) (simp_all add: upt_step loop_body_fields del: upt_Suc)

lemma stdout_foldl:
  "stdout (foldl (loop_body d env st) s (enumerate k urls)) =
     stdout s @ map (\<lambda>i. progress_line (photo_id_of st i) (env i)) [k..<k + length urls]"
  by (induction urls arbitrary: k s) (simp_all add: upt_step loop_body_fields del: upt_Suc)

lemma calls_foldl:
  "calls (foldl (loop_body d env st) s (enumerate k urls)) =
     calls s @
     concat (map (\<lambda>p. calls_made (snd p) (filepath_of d (photo_id_of st (fst p))) (env (fst p)))
       (enumerate k urls))"
  by (induction urls arbitrary: k s) (simp_all add: loop_body_fields)


lemma failed_batch:
  "failed (res (download_batch d env st urls)) =
     concat (map (\<lambda>i. failed_entry (photo_id_of st i) (env i)) [0..<length urls])"
  using failed_foldl [of d env st initial 0 urls] by (simp add: download_batch_def initial_def)

lemma sizes_batch:
  "sizes (res (download_batch d env st urls)) =
     concat (map (\<lambda>i. sizes_entry (photo_id_of st i) (env i)) [0..<length urls])"
  using sizes_foldl [of d env st initial 0 urls] by (simp add: download_batch_def initial_def)

lemma stdout_batch:
  "stdout (download_batch d env st urls) =
     map (\<lambda>i. progress_line (photo_id_of st i) (env i)) [0..<length urls]"
  using stdout_foldl [of d env st initial 0 urls] by (simp add: download_batch_def initial_def)

lemma calls_batch:
  "calls (download_batch d env st urls) =
     concat (map (\<lambda>p. calls_made (snd p) (filepath_of d (photo_id_of st (fst p))) (env (fst p)))
       (enumerate 0 urls))"
  using calls_foldl [of d env st initial 0 urls] by (simp add: download_batch_def initial_def)



lemma sizes_mem:
  "i < length urls \<Longrightarrow> env i = Succeeds data \<Longrightarrow>
   (photo_id_of st i, length data) \<in> set (sizes (res (download_batch d env st urls)))"
  by (auto simp: sizes_batch intro!: bexI [of _ i])


lemma calls_mem:
  assumes "i < length urls"
    and "c \<in> set (calls_made (urls ! i) (filepath_of d (photo_id_of st i)) (env i))"
  shows "c \<in> set (calls (download_batch d env st urls))"
proof -
  have "(i, urls ! i) \<in> set (enumerate 0 urls)"
    using assms(1) by (simp add: in_set_enumerate_eq)
  then show ?thesis
    using assms(2) by (auto simp: calls_batch intro!: bexI [of _ "(i, urls ! i)"])
qed


lemma write_made: "body a = Some x \<Longrightarrow> WriteBytes q x \<in> set (calls_made u q a)"
  by (cases a) auto

lemma write_in_calls_made:
  "WriteBytes p x \<in> set (calls_made u q a) \<Longrightarrow> p = q \<and> body a = Some x"
  by (cases a) auto

lemma size_in_sizes_entry:
  "(p, n) \<in> set (sizes_entry q a) \<Longrightarrow> p = q \<and> (\<exists>x. a = Succeeds x \<and> n = length x)"
  by (cases a) auto




text \<open>Photo IDs differ from position to position, so the entries of one item can be picked out.\<close>

lemma concat_only_at:
  assumes "i < n" and "\<And>j. j \<noteq> i \<Longrightarrow> f j = []"
  shows "concat (map f [0..<n]) = f i"
proof -
  have split: "[0..<n] = [0..<i] @ i # [Suc i..<n]"
    using assms(1)
    by (metis le_add1 less_imp_add_positive plus_nat.add_0 upt_add_eq_append upt_conv_Cons)
  have a: "concat (map f [0..<i]) = []" and b: "concat (map f [Suc i..<n]) = []"
    using assms(2) by auto
  show ?thesis
    unfolding split
    by (simp only: map_append list.map concat_append concat.simps a b append_Nil append_Nil2)
qed

lemma failed_with_id:
  assumes "i < length urls"
  shows "filter (\<lambda>p. fst p = photo_id_of st i) (failed (res (download_batch d env st urls))) =
         failed_entry (photo_id_of st i) (env i)"
proof -
  let ?f = "\<lambda>j. filter (\<lambda>p. fst p = photo_id_of st i) (failed_entry (photo_id_of st j) (env j))"
  have "?f j = []" if "j \<noteq> i" for j
    using that by (simp add: failed_entry_def photo_id_of_inj split: option.splits)
  with assms have "concat (map ?f [0..<length urls]) = ?f i"
    by (rule concat_only_at)
  moreover have "?f i = failed_entry (photo_id_of st i) (env i)"
    by (simp add: failed_entry_def split: option.splits)
  ultimately show ?thesis
    by (simp add: failed_batch filter_concat comp_def)
qed

lemma sizes_with_id:
  assumes "i < length urls"
  shows "filter (\<lambda>p. fst p = photo_id_of st i) (sizes (res (download_batch d env st urls))) =
         sizes_entry (photo_id_of st i) (env i)"
proof -
  let ?f = "\<lambda>j. filter (\<lambda>p. fst p = photo_id_of st i) (sizes_entry (photo_id_of st j) (env j))"
  have "?f j = []" if "j \<noteq> i" for j
    using that by (cases "env j") (simp_all add: photo_id_of_inj)
  with assms have "concat (map ?f [0..<length urls]) = ?f i"
    by (rule concat_only_at)
  moreover have "?f i = sizes_entry (photo_id_of st i) (env i)"
    by (cases "env i") simp_all
  ultimately show ?thesis
    by (simp add: sizes_batch filter_concat comp_def)
qed

text \<open>One more URL at the end of the list is one more run of the loop body.\<close>

lemma download_batch_snoc:
  "download_batch d env st (urls @ [u]) =
     loop_body d env st (download_batch d env st urls) (length urls, u)"
  by (simp add: download_batch_def enumerate_append_eq)

lemma res_loop_body_raised:
  "raised (env i) = Some e \<Longrightarrow>
   res (loop_body d env st s (i, url)) =
     (res s)\<lparr>failed := failed (res s) @ [(photo_id_of st i, e)]\<rparr>"
  by (cases "env i") (simp_all add: loop_body_def on_exception_def Let_def)

text \<open>Values of the concrete runs.\<close>

lemma photo_ids_of_5: "photo_id_of 5 0 = ''0005''" "photo_id_of 5 1 = ''0006''"
  by code_simp+


section \<open>The claims of the specification\<close>


text \<open>
  Claim C2. The photo ID of the URL at position \<open>i\<close> is \<open>start_num + i\<close> in the format
  \<^verbatim>\<open>04d\<close>, in list order and whatever the outcomes are: the progress lines, the failure
  list, the sizes list and the calls made are those of the positions \<open>0, 1, ...\<close> in
  order, each under the ID \<open>fmt_04d (st + int i)\<close>, an expression in which \<open>env\<close> does
  not occur. The ID has at least four characters and reads back as the number.
\<close>

theorem photo_ids_follow_positions:
  "stdout (download_batch d env st urls) =
     map (\<lambda>i. progress_line (fmt_04d (st + int i)) (env i)) [0..<length urls] \<and>
   failed (res (download_batch d env st urls)) =
     concat (map (\<lambda>i. failed_entry (fmt_04d (st + int i)) (env i)) [0..<length urls]) \<and>
   sizes (res (download_batch d env st urls)) =
     concat (map (\<lambda>i. sizes_entry (fmt_04d (st + int i)) (env i)) [0..<length urls]) \<and>
   calls (download_batch d env st urls) =
     concat (map (\<lambda>p. calls_made (snd p) (filepath_of d (fmt_04d (st + int (fst p)))) (env (fst p)))
       (enumerate 0 urls)) \<and>
   (\<forall>n. read_int (fmt_04d n) = n \<and> 4 \<le> length (fmt_04d n))"
  using stdout_batch [of d env st urls] failed_batch [of d env st urls]
    sizes_batch [of d env st urls] calls_batch [of d env st urls]
  by (simp add: photo_id_of_def read_int_fmt_04d length_fmt_04d_ge4)





text \<open>
  Claim C5. When the body \<open>data\<close> of the URL at position \<open>i\<close> has been read,
  \<^verbatim>\<open>write_bytes\<close> is called on \<^verbatim>\<open><images_dir>/<photo_id>.jpg\<close> with \<open>data\<close> as it is, and
  nothing else is ever written to that path. If the write does not raise, the sizes list
  has the pair of the photo ID and \<open>length data\<close>, and any pair it has for that photo
  ID carries this length.
\<close>

theorem body_written_and_size_recorded:
  assumes "i < length urls" and "body (env i) = Some data"
  shows "WriteBytes (images_dir @ ''/'' @ fmt_04d (st + int i) @ ''.jpg'') data
           \<in> set (calls (download_batch images_dir env st urls)) \<and>
         (\<forall>x. WriteBytes (images_dir @ ''/'' @ fmt_04d (st + int i) @ ''.jpg'') x
                 \<in> set (calls (download_batch images_dir env st urls)) \<longrightarrow> x = data) \<and>
         (raised (env i) = None \<longrightarrow>
            (fmt_04d (st + int i), length data)
              \<in> set (sizes (res (download_batch images_dir env st urls)))) \<and>
         (\<forall>n. (fmt_04d (st + int i), n)
                 \<in> set (sizes (res (download_batch images_dir env st urls)))
                 \<longrightarrow> raised (env i) = None \<and> n = length data)"
proof -
  let ?r = "download_batch images_dir env st urls"
  have path: "images_dir @ ''/'' @ photo_id_of st i @ ''.jpg'' =
              filepath_of images_dir (photo_id_of st i)"
    by (simp add: filepath_of_def)
  have pid: "fmt_04d (st + int i) = photo_id_of st i"
    by (simp add: photo_id_of_def)
  have a: "WriteBytes (filepath_of images_dir (photo_id_of st i)) data \<in> set (calls ?r)"
    using assms(1) write_made [OF assms(2)] by (rule calls_mem)
  have b: "x = data"
    if "WriteBytes (filepath_of images_dir (photo_id_of st i)) x \<in> set (calls ?r)" for x
  proof -
    from that obtain j u where
      w: "WriteBytes (filepath_of images_dir (photo_id_of st i)) x
            \<in> set (calls_made u (filepath_of images_dir (photo_id_of st j)) (env j))"
      by (auto simp: calls_batch)
    from write_in_calls_made [OF w] have "j = i" "body (env j) = Some x"
      by (simp_all add: filepath_of_inj photo_id_of_inj)
    with assms show ?thesis by simp
  qed
  have c: "(photo_id_of st i, length data) \<in> set (sizes (res ?r))" if "raised (env i) = None"
  proof -
    from that assms(2) have "env i = Succeeds data" by (cases "env i") auto
    with assms(1) show ?thesis by (rule sizes_mem)
  qed
  have e: "raised (env i) = None \<and> n = length data"
    if "(photo_id_of st i, n) \<in> set (sizes (res ?r))" for n
  proof -
    from that obtain j where
      w: "(photo_id_of st i, n) \<in> set (sizes_entry (photo_id_of st j) (env j))"
      by (auto simp: sizes_batch)
    from size_in_sizes_entry [OF w] obtain x where "j = i" "env j = Succeeds x" "n = length x"
      by (auto simp: photo_id_of_inj)
    with assms show ?thesis by simp
  qed
  show ?thesis unfolding pid path using a b c e by blast
qed

theorem body_written_witness:
  "1 < length two_urls \<and> body (first_times_out 1) = Some [0xFF, 0xD8] \<and>
   WriteBytes ''images/0006.jpg'' [0xFF, 0xD8]
     \<in> set (calls (download_batch ''images'' first_times_out 5 two_urls)) \<and>
   (''0006'', 2) \<in> set (sizes (res (download_batch ''images'' first_times_out 5 two_urls)))"
proof -
  have a: "1 < length two_urls" by (simp add: two_urls_def)
  have b: "body (first_times_out 1) = Some [0xFF, 0xD8]" by (simp add: first_times_out_def)
  have c: "fmt_04d 6 = ''0006''" by code_simp
  from a b body_written_and_size_recorded
      [where i = 1 and urls = two_urls and env = first_times_out and data = "[0xFF, 0xD8]"
         and images_dir = "''images''" and st = 5, OF a b]
  show ?thesis
    by (simp add: c first_times_out_def numeral_2_eq_2)
qed




text \<open>
  Claim C7. With fewer than two arguments after the program name, \<^verbatim>\<open>main\<close> prints the
  usage line and nothing else, leaves through \<^verbatim>\<open>sys.exit(1)\<close>, and makes no call to the
  network or the file system.
\<close>

theorem too_few_arguments:
  "length argv < 3 \<Longrightarrow>
   main d py_int env argv = \<lparr>leaves = Some (SystemExit 1), printed = [usage], made = []\<rparr> \<and>
   exit_status (main d py_int env argv) = 1"
  by (simp add: main_def exit_status_def)

theorem too_few_arguments_witness:
  "length [''download_images.py'', ''5''] < 3 \<and>
   main ''images'' ascii_int all_fine [''download_images.py'', ''5''] =
     \<lparr>leaves = Some (SystemExit 1), printed = [usage], made = []\<rparr> \<and>
   exit_status (main ''images'' ascii_int all_fine [''download_images.py'', ''5'']) = 1"
  using too_few_arguments [of "[''download_images.py'', ''5'']" "''images''" ascii_int all_fine]
  by (simp add: exit_status_def)



text \<open>
  Claim C9. The format pads and never truncates. A photo ID of a number above 9999 has
  more than four characters, that of a negative number starts with a minus sign, and
  every photo ID reads back as its number. So a photo ID is a string of four digits
  exactly when its number is between 0 and 9999, and all photo IDs of a batch with at
  least one URL are such strings exactly when \<open>0 \<le> start_num\<close> and
  \<open>start_num + len(urls) - 1 \<le> 9999\<close>.
\<close>

theorem zero_padding_never_truncates:
  "(9999 < st + int i \<longrightarrow> 4 < length (photo_id_of st i)) \<and>
   (st + int i < 0 \<longrightarrow> hd (photo_id_of st i) = CHR ''-'') \<and>
   read_int (photo_id_of st i) = st + int i \<and>
   (four_digits (photo_id_of st i) \<longleftrightarrow> 0 \<le> st + int i \<and> st + int i \<le> 9999) \<and>
   (urls \<noteq> [] \<longrightarrow>
      ((\<forall>j<length urls. four_digits (photo_id_of st j)) \<longleftrightarrow>
       0 \<le> st \<and> st + int (length urls) - 1 \<le> 9999))"
proof -
  have batch: "(\<forall>j<length urls. four_digits (photo_id_of st j)) \<longleftrightarrow>
               0 \<le> st \<and> st + int (length urls) - 1 \<le> 9999" if ne: "urls \<noteq> []"
  proof
    assume h: "\<forall>j<length urls. four_digits (photo_id_of st j)"
    from ne have "0 < length urls" "length urls - 1 < length urls" by simp_all
    with h have "four_digits (photo_id_of st 0)" "four_digits (photo_id_of st (length urls - 1))"
      by blast+
    then have "0 \<le> st" "st + int (length urls - 1) \<le> 9999"
      by (simp_all add: photo_id_of_def four_digits_fmt_04d)
    then show "0 \<le> st \<and> st + int (length urls) - 1 \<le> 9999"
      using \<open>0 < length urls\<close> by (simp add: of_nat_diff)
  next
    assume "0 \<le> st \<and> st + int (length urls) - 1 \<le> 9999"
    then show "\<forall>j<length urls. four_digits (photo_id_of st j)"
      by (auto simp: photo_id_of_def four_digits_fmt_04d)
  qed
  show ?thesis
    using batch
    by (simp add: photo_id_of_def length_fmt_04d_big hd_fmt_04d_neg read_int_fmt_04d
          four_digits_fmt_04d)
qed

theorem zero_padding_witness:
  "9999 < (9999::int) + int 1 \<and> 4 < length (photo_id_of 9999 1) \<and>
   (-5::int) + int 0 < 0 \<and> hd (photo_id_of (-5) 0) = CHR ''-'' \<and>
   two_urls \<noteq> [] \<and> \<not> (\<forall>j<length two_urls. four_digits (photo_id_of 9999 j)) \<and>
   four_digits (photo_id_of 5 0) \<and> four_digits (photo_id_of 5 1)"
  using zero_padding_never_truncates [of 9999 1 two_urls]
    zero_padding_never_truncates [of "-5" 0 two_urls]
    zero_padding_never_truncates [of 5 0 two_urls]
    zero_padding_never_truncates [of 5 1 two_urls]
  by (simp add: two_urls_def)

text \<open>
  Claim C10. If the \<^verbatim>\<open>try\<close> block of position \<open>i\<close> raises, at the request, the fetch or
  the write, then that iteration changes the results by one new entry at the end of the
  failure list and by nothing else: the success count and the sizes list stay as they
  were. This holds for the loop body on any state and for the batch up to position \<open>i\<close>;
  in the final result the photo ID of the item has exactly that one failure entry and no
  sizes entry.
\<close>

theorem failed_item_changes_only_the_failure_list:
  assumes "i < length urls" and "raised (env i) = Some e"
  shows "res (loop_body d env st s (i, urls ! i)) =
           (res s)\<lparr>failed := failed (res s) @ [(photo_id_of st i, e)]\<rparr> \<and>
         res (download_batch d env st (take (Suc i) urls)) =
           (res (download_batch d env st (take i urls)))
             \<lparr>failed := failed (res (download_batch d env st (take i urls))) @
                          [(photo_id_of st i, e)]\<rparr> \<and>
         filter (\<lambda>p. fst p = photo_id_of st i) (failed (res (download_batch d env st urls))) =
           [(photo_id_of st i, e)] \<and>
         filter (\<lambda>p. fst p = photo_id_of st i) (sizes (res (download_batch d env st urls))) = []"
proof -
  have "take (Suc i) urls = take i urls @ [urls ! i]"
    using assms(1) by (rule take_Suc_conv_app_nth)
  moreover have "length (take i urls) = i" using assms(1) by simp
  ultimately have "download_batch d env st (take (Suc i) urls) =
      loop_body d env st (download_batch d env st (take i urls)) (i, urls ! i)"
    using download_batch_snoc [of d env st "take i urls" "urls ! i"] by simp
  moreover have "sizes_entry (photo_id_of st i) (env i) = []"
    using assms(2) by (cases "env i") simp_all
  ultimately show ?thesis
    using assms by (simp add: res_loop_body_raised failed_with_id sizes_with_id failed_entry_def)
qed

theorem failed_item_witness:
  "0 < length two_urls \<and> raised (no_directory 0) = Some ''No such file or directory'' \<and>
   res (download_batch ''images'' no_directory 5 (take (Suc 0) two_urls)) =
     \<lparr>success = 0, failed = [(''0005'', ''No such file or directory'')], sizes = []\<rparr> \<and>
   filter (\<lambda>p. fst p = ''0005'')
     (failed (res (download_batch ''images'' no_directory 5 two_urls))) =
     [(''0005'', ''No such file or directory'')] \<and>
   filter (\<lambda>p. fst p = ''0005'')
     (sizes (res (download_batch ''images'' no_directory 5 two_urls))) = []"
proof -
  have a: "0 < length two_urls" by (simp add: two_urls_def)
  have b: "raised (no_directory 0) = Some ''No such file or directory''"
    by (simp add: no_directory_def)
  have c: "res (download_batch ''images'' no_directory 5 []) =
             \<lparr>success = 0, failed = [], sizes = []\<rparr>"
    by (simp add: download_batch_def initial_def)
  from a b failed_item_changes_only_the_failure_list
      [where i = 0 and urls = two_urls and env = no_directory
         and e = "''No such file or directory''" and d = "''images''" and st = 5, OF a b]
  show ?thesis
    by (simp add: c photo_ids_of_5)
qed

end
